theory Spec2Isabelle
  imports Main
begin

section \<open>Python values and exceptions\<close>

text \<open>
  The script \<^verbatim>\<open>UnwantedRecordsFBRefScraper.py\<close> defines no exception class of its own.
  Every failure it can show is an exception raised by Python or by one of its libraries;
  the model keeps the exception class, which is what a handler would match on.
\<close>

datatype py_error =
    AttributeError
  | KeyError
  | IndexError
  | TypeError
  | WebDriverException

section \<open>The name reducer: \<^verbatim>\<open>extract_surname\<close>\<close>

text \<open>
  Python's \<^verbatim>\<open>str.split()\<close> without an argument splits at runs of whitespace and returns the
  maximal whitespace-free pieces; leading and trailing whitespace gives no empty piece.
  A character of the model is a code point below 256; \<open>is_space\<close> lists the ones for
  which \<^verbatim>\<open>str.isspace()\<close> holds.
\<close>

definition is_space :: "char \<Rightarrow> bool" where
  "is_space c \<longleftrightarrow> (of_char c :: nat) \<in> {9, 10, 11, 12, 13, 28, 29, 30, 31, 32, 133, 160}"

function split_py :: "string \<Rightarrow> string list" where
  "split_py s =
     (case dropWhile is_space s of
        [] \<Rightarrow> []
      | c # cs \<Rightarrow>
          takeWhile (\<lambda>x. \<not> is_space x) (c # cs)
            # split_py (dropWhile (\<lambda>x. \<not> is_space x) (c # cs)))"
  by pat_completeness auto
termination
proof (relation "measure length")
  show "wf (measure length)" by simp
next
  fix s :: string and c cs
  assume h: "dropWhile is_space s = c # cs"
  have "length (dropWhile (\<lambda>x. \<not> is_space x) (c # cs)) \<le> length (c # cs)"
    by (rule length_dropWhile_le)
  moreover have "length (c # cs) \<le> length s"
    using length_dropWhile_le [of is_space s] h by simp
  moreover have "\<not> is_space c"
    using hd_dropWhile [of is_space s] h by simp
  then have "length (dropWhile (\<lambda>x. \<not> is_space x) (c # cs)) < length (c # cs)"
    using length_dropWhile_le [of "\<lambda>x. \<not> is_space x" cs] by simp
  ultimately show "(dropWhile (\<lambda>x. \<not> is_space x) (c # cs), s) \<in> measure length"
    by simp
qed

declare split_py.simps [simp del]

text \<open>
  \<^verbatim>\<open>return full_name.split()[-1]\<close>: indexing the empty list raises \<^verbatim>\<open>IndexError\<close>.
\<close>

definition extract_surname :: "string \<Rightarrow> py_error + string" where
  "extract_surname full_name =
     (case split_py full_name of
        [] \<Rightarrow> Inl IndexError
      | t # ts \<Rightarrow> Inr (last (t # ts)))"

section \<open>The parsed page\<close>

text \<open>
  \<^verbatim>\<open>BeautifulSoup(html_content, "html.parser")\<close> turns the page source into a tree of tags and
  strings. Parsing itself is the library's business; the model starts from the tree. A tag has
  a name, a dictionary of attributes (looked up with \<open>map_of\<close>) and its contents in document
  order. The soup object is the root tag of the tree.
\<close>

datatype node =
    Tag (name: string) (attrs: "(string \<times> string) list") (contents: "node list")
  | NavigableString string

fun descendants :: "node \<Rightarrow> node list" where
  "descendants (NavigableString s) = []"
| "descendants (Tag n a cs) = concat (map (\<lambda>c. c # descendants c) cs)"

fun get_text :: "node \<Rightarrow> string" where
  "get_text (NavigableString s) = s"
| "get_text (Tag n a cs) = concat (map get_text cs)"

text \<open>
  \<^verbatim>\<open>find_all(name, attrs)\<close> returns, in document order, the descendant tags with that name whose
  attributes have the given values; \<^verbatim>\<open>find\<close> returns the first of them or \<^verbatim>\<open>None\<close>.
  \<^verbatim>\<open>table.thead\<close> is \<^verbatim>\<open>table.find("thead")\<close>.
\<close>

fun matches :: "string \<Rightarrow> (string \<times> string) list \<Rightarrow> node \<Rightarrow> bool" where
  "matches nm flt (NavigableString s) = False"
| "matches nm flt (Tag n a cs) = (n = nm \<and> list_all (\<lambda>(k, v). map_of a k = Some v) flt)"

definition find_all :: "node \<Rightarrow> string \<Rightarrow> (string \<times> string) list \<Rightarrow> node list" where
  "find_all t nm flt = filter (matches nm flt) (descendants t)"

definition find :: "node \<Rightarrow> string \<Rightarrow> (string \<times> string) list \<Rightarrow> node option" where
  "find t nm flt = (case find_all t nm flt of [] \<Rightarrow> None | x # xs \<Rightarrow> Some x)"

definition strip :: "string \<Rightarrow> string" where
  "strip s = rev (dropWhile is_space (rev (dropWhile is_space s)))"

section \<open>Data frames\<close>

text \<open>
  A pandas \<^verbatim>\<open>DataFrame\<close> is a row index and a list of labelled columns. A column of dtype
  \<^verbatim>\<open>object\<close> holds what the scraper put there, a string or \<^verbatim>\<open>None\<close>; a numeric column holds
  numbers or \<^verbatim>\<open>NaN\<close>. The numbers themselves are a type parameter \<open>'n\<close>: the theorems hold
  for whatever numbers the conversion produces.

  pandas accepts a frame in which a label occurs twice; \<^verbatim>\<open>df[label]\<close> is then a frame and
  not a column. The spec's tables map a column name to a value, so their labels are unique
  (\<open>unique_labels\<close>). The normalizer's loop is modelled for repeated labels too. The record
  finder is modelled for unique labels: \<open>getitem\<close> looks a label up with \<open>map_of\<close>, and
  every theorem about it assumes \<open>unique_labels\<close>.
\<close>

datatype cell = PyNone | Str string

datatype 'n number = NaN | Val 'n

datatype 'n column = Obj "cell list" | Numeric "'n number list"

record 'n frame =
  index :: "nat list"
  cols :: "(string \<times> 'n column) list"

definition unique_labels :: "'n frame \<Rightarrow> bool" where
  "unique_labels df \<longleftrightarrow> distinct (map fst (cols df))"

fun col_length :: "'n column \<Rightarrow> nat" where
  "col_length (Obj cs) = length cs"
| "col_length (Numeric ns) = length ns"

definition well_formed :: "'n frame \<Rightarrow> bool" where
  "well_formed df \<longleftrightarrow> list_all (\<lambda>(l, c). col_length c = length (index df)) (cols df)"

text \<open>\<^verbatim>\<open>pd.DataFrame(data, columns=headers)\<close> for a list of rows, each as long as \<^verbatim>\<open>headers\<close>.\<close>

definition DataFrame :: "cell list list \<Rightarrow> string list \<Rightarrow> 'n frame" where
  "DataFrame data headers =
     \<lparr> index = [0 ..< length data],
       cols = map (\<lambda>(j, h). (h, Obj (map (\<lambda>r. r ! j) data))) (enumerate 0 headers) \<rparr>"

text \<open>Element-wise \<^verbatim>\<open>isna\<close>: \<^verbatim>\<open>None\<close> in an object column, \<^verbatim>\<open>NaN\<close> in a numeric one.\<close>

fun isna :: "'n column \<Rightarrow> bool list" where
  "isna (Obj cs) = map (\<lambda>c. case c of PyNone \<Rightarrow> True | Str s \<Rightarrow> False) cs"
| "isna (Numeric ns) = map (\<lambda>n. case n of NaN \<Rightarrow> True | Val v \<Rightarrow> False) ns"

text \<open>Boolean indexing \<^verbatim>\<open>df[mask]\<close>: the rows whose mask entry is true, in order.\<close>

definition select :: "bool list \<Rightarrow> 'a list \<Rightarrow> 'a list" where
  "select msk xs = map snd (filter fst (zip msk xs))"

fun take_col :: "bool list \<Rightarrow> 'n column \<Rightarrow> 'n column" where
  "take_col msk (Obj cs) = Obj (select msk cs)"
| "take_col msk (Numeric ns) = Numeric (select msk ns)"

definition take_rows :: "bool list \<Rightarrow> 'n frame \<Rightarrow> 'n frame" where
  "take_rows msk df =
     \<lparr> index = select msk (index df),
       cols = map (\<lambda>(l, c). (l, take_col msk c)) (cols df) \<rparr>"

text \<open>\<^verbatim>\<open>df.dropna()\<close> keeps the rows in which no column is null.\<close>

definition dropna :: "'n frame \<Rightarrow> 'n frame" where
  "dropna df =
     take_rows
       (map (\<lambda>i. list_all (\<lambda>(l, c). \<not> isna c ! i) (cols df)) [0 ..< length (index df)])
       df"

section \<open>The table extractor: \<^verbatim>\<open>scrape_table\<close>\<close>

text \<open>
  \<^verbatim>\<open>headers = [header["data-stat"] for header in header_cells]\<close>: subscripting a tag by an
  attribute it does not have raises \<^verbatim>\<open>KeyError\<close>.
\<close>

fun header_stats :: "node list \<Rightarrow> py_error + string list" where
  "header_stats [] = Inr []"
| "header_stats (h # hs) =
     (case h of
        NavigableString s \<Rightarrow> Inl KeyError
      | Tag n a cs \<Rightarrow>
          (case map_of a ''data-stat'' of
             None \<Rightarrow> Inl KeyError
           | Some v \<Rightarrow> (case header_stats hs of Inl e \<Rightarrow> Inl e | Inr vs \<Rightarrow> Inr (v # vs))))"

text \<open>
  The inner loop of lines 92 to 98. A tag is always true in a condition, so \<^verbatim>\<open>if cell\<close>
  asks whether \<^verbatim>\<open>row.find\<close> returned a tag.
\<close>

definition row_data :: "string list \<Rightarrow> node \<Rightarrow> cell list" where
  "row_data headers row =
     map (\<lambda>header.
            case find row ''td'' [(''data-stat'', header)] of
              Some cell \<Rightarrow> Str (strip (get_text cell))
            | None \<Rightarrow> PyNone)
         headers"

text \<open>
  Lines 79 to 107, from the parsed page on. \<^verbatim>\<open>soup.find\<close>, \<^verbatim>\<open>table.thead\<close> and
  \<^verbatim>\<open>table.find("tbody")\<close> return \<^verbatim>\<open>None\<close> when there is no such tag, and the attribute access
  that follows each of them raises \<^verbatim>\<open>AttributeError\<close> on \<^verbatim>\<open>None\<close>. The code tests none of the
  three results.
\<close>

definition scrape_table_from :: "node \<Rightarrow> string \<Rightarrow> py_error + 'n frame" where
  "scrape_table_from soup table_id =
     (case find soup ''table'' [(''id'', table_id)] of
        None \<Rightarrow> Inl AttributeError
      | Some table \<Rightarrow>
          (case find table ''thead'' [] of
             None \<Rightarrow> Inl AttributeError
           | Some thead \<Rightarrow>
               (case header_stats (find_all thead ''th'' [(''scope'', ''col'')]) of
                  Inl e \<Rightarrow> Inl e
                | Inr hs \<Rightarrow>
                    (let headers = drop 1 hs in
                     case find table ''tbody'' [] of
                       None \<Rightarrow> Inl AttributeError
                     | Some tbody \<Rightarrow>
                         (let rows = find_all tbody ''tr'' [];
                              data = map (row_data headers) rows;
                              df = DataFrame data headers
                          in Inr (dropna df))))))"

text \<open>
  The whole function. \<open>driver\<close> stands for the global WebDriver together with the parser:
  \<^verbatim>\<open>driver.get(url)\<close>, \<^verbatim>\<open>driver.page_source\<close> and \<^verbatim>\<open>BeautifulSoup(...)\<close> give the parsed
  page of a URL, or the browser raises.
\<close>

definition scrape_table ::
  "(string \<Rightarrow> py_error + node) \<Rightarrow> string \<Rightarrow> string \<Rightarrow> py_error + 'n frame" where
  "scrape_table driver url table_id =
     (case driver url of
        Inl e \<Rightarrow> Inl e
      | Inr soup \<Rightarrow> scrape_table_from soup table_id)"

section \<open>The type normalizer: \<^verbatim>\<open>convert_columns_to_numeric\<close>\<close>

text \<open>
  \<^verbatim>\<open>pd.to_numeric(series, errors='ignore')\<close> returns a numeric series as it is. On an object
  series the converter of pandas works in two steps. It first reads every element: \<^verbatim>\<open>None\<close>
  and the empty string are missing values (the converter runs with \<^verbatim>\<open>convert_empty=True\<close>),
  any other string goes through the scalar parser, and a string that the parser refuses
  ends the conversion. It then takes the values it has read together and chooses one dtype
  for the whole column, \<^verbatim>\<open>int64\<close>, \<^verbatim>\<open>uint64\<close> or \<^verbatim>\<open>float64\<close>, or finds that none of them holds
  all the values. Where the conversion does not go through, \<^verbatim>\<open>errors='ignore'\<close> gives the
  series back unchanged.

  The scalar parser and the choice for the column belong to pandas. They are the two
  components of the parameter \<open>conv\<close>: \<open>scan_string\<close> reads one non-empty string, and
  \<open>decide_column\<close> turns the values read from a column into the numeric column, or refuses
  them. The theorems hold for every such pair.
\<close>

datatype 't token = Missing | Tok 't

datatype ('t, 'n) conversion =
  Conversion (scan_string: "string \<Rightarrow> 't option")
             (decide_column: "'t token list \<Rightarrow> 'n number list option")

fun to_token :: "(string \<Rightarrow> 't option) \<Rightarrow> cell \<Rightarrow> 't token option" where
  "to_token scan PyNone = Some Missing"
| "to_token scan (Str s) = (if s = [] then Some Missing else map_option Tok (scan s))"

fun to_numeric_ignore :: "('t, 'n) conversion \<Rightarrow> 'n column \<Rightarrow> 'n column" where
  "to_numeric_ignore conv (Numeric ns) = Numeric ns"
| "to_numeric_ignore conv (Obj cs) =
     (case those (map (to_token (scan_string conv)) cs) of
        None \<Rightarrow> Obj cs
      | Some ts \<Rightarrow>
          (case decide_column conv ts of
             None \<Rightarrow> Obj cs
           | Some ns \<Rightarrow> Numeric ns))"

text \<open>\<^verbatim>\<open>df[label]\<close> raises \<^verbatim>\<open>KeyError\<close> for a label the frame does not have.\<close>

definition getitem :: "'n frame \<Rightarrow> string \<Rightarrow> py_error + 'n column" where
  "getitem df l = (case map_of (cols df) l of None \<Rightarrow> Inl KeyError | Some c \<Rightarrow> Inr c)"

text \<open>All the columns that carry a label, in frame order.\<close>

definition columns_of :: "'n frame \<Rightarrow> string \<Rightarrow> 'n column list" where
  "columns_of df l = map snd (filter (\<lambda>kv. fst kv = l) (cols df))"

text \<open>\<^verbatim>\<open>df[label] = series\<close> replaces the column in place, or appends a new one.\<close>

fun set_col :: "string \<Rightarrow> 'c \<Rightarrow> (string \<times> 'c) list \<Rightarrow> (string \<times> 'c) list" where
  "set_col l c [] = [(l, c)]"
| "set_col l c ((k, v) # kvs) = (if k = l then (k, c) # kvs else (k, v) # set_col l c kvs)"

definition setitem :: "'n frame \<Rightarrow> string \<Rightarrow> 'n column \<Rightarrow> 'n frame" where
  "setitem df l c = df\<lparr>cols := set_col l c (cols df)\<rparr>"

text \<open>
  The function receives a reference to a frame, not a frame: Python passes objects by
  reference and the loop assigns into the object it was given. A heap maps references to
  frames. \<open>convert_loop\<close> is the \<^verbatim>\<open>for\<close> loop over \<^verbatim>\<open>df.columns\<close>, which is read once before the
  first iteration; each iteration reads and writes the frame at \<open>df\<close>.

  In the loop \<^verbatim>\<open>df[col]\<close> is a series when the label occurs once. When the label occurs more
  than once it is a frame of all the columns with that label, and \<^verbatim>\<open>pd.to_numeric\<close> raises
  \<^verbatim>\<open>TypeError\<close> for a frame; the columns converted before stay converted.
\<close>

type_synonym ref = nat

type_synonym 'n heap = "ref \<Rightarrow> 'n frame"

fun convert_loop ::
  "('t, 'n) conversion \<Rightarrow> ref \<Rightarrow> string list \<Rightarrow> 'n heap \<Rightarrow> py_error option \<times> 'n heap"
where
  "convert_loop conv df [] h = (None, h)"
| "convert_loop conv df (col # rest) h =
     (case columns_of (h df) col of
        [] \<Rightarrow> (Some KeyError, h)
      | [c] \<Rightarrow>
          convert_loop conv df rest
            (h(df := setitem (h df) col (to_numeric_ignore conv c)))
      | c # c' # cs \<Rightarrow> (Some TypeError, h))"

definition convert_columns_to_numeric ::
  "('t, 'n) conversion \<Rightarrow> ref \<Rightarrow> 'n heap \<Rightarrow> (py_error + ref) \<times> 'n heap" where
  "convert_columns_to_numeric conv df h =
     (case convert_loop conv df (map fst (cols (h df))) h of
        (Some e, h') \<Rightarrow> (Inl e, h')
      | (None, h') \<Rightarrow> (Inr df, h'))"

text \<open>
  The same function seen as the spec's \<^verbatim>\<open>normalize(Table) -> Table\<close>: the table that the
  returned reference denotes when the argument refers to \<open>T\<close>.
\<close>

definition normalize :: "('t, 'n) conversion \<Rightarrow> 'n frame \<Rightarrow> py_error + 'n frame" where
  "normalize conv T =
     (case convert_columns_to_numeric conv 0 (\<lambda>r. T) of
        (Inl e, h') \<Rightarrow> Inl e
      | (Inr r, h') \<Rightarrow> Inr (h' r))"

text \<open>
  A conversion for the worked examples, with integers for the values read and for the
  numbers. Its scalar parser reads decimal integer literals with an optional minus sign,
  between \<open>- 2 ^ 63\<close> and \<open>2 ^ 64 - 1\<close> as pandas demands ("Integer out of range" otherwise).
  Its choice for the column is the one pandas makes for integers: a value above
  \<open>2 ^ 63 - 1\<close> needs \<^verbatim>\<open>uint64\<close> and cannot share a column with a negative or a missing value;
  a column with a missing value is \<^verbatim>\<open>float64\<close>, where a missing value is \<^verbatim>\<open>NaN\<close> and an
  integer is rounded to the nearest double; any other column holds the integers read.
  The parser of pandas reads more (decimals, exponents, a plus sign); the examples use
  integer literals, empty strings and a string that is no number at all.
\<close>

definition digit_of :: "char \<Rightarrow> nat option" where
  "digit_of c =
     (let k = (of_char c :: nat) in if 48 \<le> k \<and> k \<le> 57 then Some (k - 48) else None)"

fun digits_value :: "nat \<Rightarrow> string \<Rightarrow> nat option" where
  "digits_value acc [] = Some acc"
| "digits_value acc (c # cs) =
     (case digit_of c of None \<Rightarrow> None | Some d \<Rightarrow> digits_value (10 * acc + d) cs)"

definition int_literal :: "string \<Rightarrow> int option" where
  "int_literal s =
     (case s of
        [] \<Rightarrow> None
      | c # cs \<Rightarrow>
          if c = CHR ''-'' then
            (if cs = [] then None else map_option (\<lambda>n. - int n) (digits_value 0 cs))
          else map_option int (digits_value 0 (c # cs)))"

definition scan_int :: "string \<Rightarrow> int option" where
  "scan_int s =
     (case int_literal s of
        None \<Rightarrow> None
      | Some n \<Rightarrow> if - (2 ^ 63) \<le> n \<and> n \<le> 2 ^ 64 - 1 then Some n else None)"

text \<open>
  Rounding an integer to the nearest double, ties to the even mantissa: \<open>excess_bits\<close>
  counts the bits beyond the 53 that a double keeps.
\<close>

function excess_bits :: "nat \<Rightarrow> nat" where
  "excess_bits a = (if a < 2 ^ 53 then 0 else Suc (excess_bits (a div 2)))"
  by pat_completeness auto
termination
  by (relation "measure (\<lambda>a. a)") auto

declare excess_bits.simps [simp del]

definition float64_of_int :: "int \<Rightarrow> int" where
  "float64_of_int n =
     (let a = nat \<bar>n\<bar>; k = excess_bits a; q = a div 2 ^ k; r = a mod 2 ^ k;
          q' = (if 2 ^ k < 2 * r \<or> (2 * r = 2 ^ k \<and> odd q) then q + 1 else q)
      in if k = 0 then n else sgn n * int (q' * 2 ^ k))"

definition decide_int64 :: "int token list \<Rightarrow> int number list option" where
  "decide_int64 ts =
     (let missing = list_ex (\<lambda>t. case t of Missing \<Rightarrow> True | Tok n \<Rightarrow> False) ts;
          uint = list_ex (\<lambda>t. case t of Missing \<Rightarrow> False | Tok n \<Rightarrow> 2 ^ 63 - 1 < n) ts;
          sint = list_ex (\<lambda>t. case t of Missing \<Rightarrow> False | Tok n \<Rightarrow> n < 0) ts
      in if uint \<and> (missing \<or> sint) then None
         else if missing then
           Some (map (\<lambda>t. case t of Missing \<Rightarrow> NaN | Tok n \<Rightarrow> Val (float64_of_int n)) ts)
         else Some (map (\<lambda>t. case t of Missing \<Rightarrow> NaN | Tok n \<Rightarrow> Val n) ts))"

definition int_conversion :: "(int, int) conversion" where
  "int_conversion = Conversion scan_int decide_int64"

section \<open>The record finder\<close>

text \<open>
  \<^verbatim>\<open>df[label] == v\<close> compares element by element. A string or \<^verbatim>\<open>None\<close> never equals a number,
  and \<^verbatim>\<open>NaN\<close> equals nothing.
\<close>

fun eq_scalar :: "'n column \<Rightarrow> 'n number \<Rightarrow> bool list" where
  "eq_scalar (Obj cs) v = map (\<lambda>c. False) cs"
| "eq_scalar (Numeric ns) v =
     map (\<lambda>n. case n of NaN \<Rightarrow> False | Val a \<Rightarrow> (case v of NaN \<Rightarrow> False | Val b \<Rightarrow> a = b)) ns"

text \<open>
  \<^verbatim>\<open>nlargest(1, label)\<close> refuses a column of dtype object with \<^verbatim>\<open>TypeError\<close>, whatever the
  number of rows. Otherwise it keeps one row: the first one holding the largest number,
  \<^verbatim>\<open>NaN\<close> ranking below every number; no row when the frame is empty.
\<close>

fun gt_number :: "'n::linorder number \<Rightarrow> 'n number \<Rightarrow> bool" where
  "gt_number NaN y = False"
| "gt_number (Val a) NaN = True"
| "gt_number (Val a) (Val b) = (b < a)"

fun argmax_from :: "nat \<Rightarrow> 'n::linorder number \<Rightarrow> nat \<Rightarrow> 'n number list \<Rightarrow> nat" where
  "argmax_from best bv i [] = best"
| "argmax_from best bv i (x # xs) =
     (if gt_number x bv then argmax_from i x (Suc i) xs else argmax_from best bv (Suc i) xs)"

definition nlargest_pos :: "'n::linorder number list \<Rightarrow> nat option" where
  "nlargest_pos ns = (case ns of [] \<Rightarrow> None | x # xs \<Rightarrow> Some (argmax_from 0 x 1 xs))"

definition nlargest1 :: "'n::linorder frame \<Rightarrow> string \<Rightarrow> py_error + 'n frame" where
  "nlargest1 df l =
     (case getitem df l of
        Inl e \<Rightarrow> Inl e
      | Inr (Obj cs) \<Rightarrow> Inl TypeError
      | Inr (Numeric ns) \<Rightarrow>
          Inr (take_rows (map (\<lambda>i. nlargest_pos ns = Some i) [0 ..< length ns]) df))"

text \<open>
  \<^verbatim>\<open>series.values[0]\<close> raises \<^verbatim>\<open>IndexError\<close> on a series without elements. The series is
  the rank column of what \<^verbatim>\<open>nlargest\<close> returned, so it is numeric: for a column of dtype
  object \<^verbatim>\<open>nlargest\<close> has raised before, and the last equation repeats that exception.
\<close>

fun values0 :: "'n column \<Rightarrow> py_error + 'n number" where
  "values0 (Numeric []) = Inl IndexError"
| "values0 (Numeric (n # ns)) = Inr n"
| "values0 (Obj cs) = Inl TypeError"

text \<open>
  \<^verbatim>\<open>series.apply(extract_surname)\<close> calls the function on each element in order. Only a
  string has a \<^verbatim>\<open>split\<close> method: on \<^verbatim>\<open>None\<close> or on a number the call raises
  \<^verbatim>\<open>AttributeError\<close>.
\<close>

fun apply_cells :: "cell list \<Rightarrow> py_error + string list" where
  "apply_cells [] = Inr []"
| "apply_cells (PyNone # cs) = Inl AttributeError"
| "apply_cells (Str s # cs) =
     (case extract_surname s of
        Inl e \<Rightarrow> Inl e
      | Inr t \<Rightarrow> (case apply_cells cs of Inl e \<Rightarrow> Inl e | Inr ts \<Rightarrow> Inr (t # ts)))"

fun apply_extract_surname :: "'n column \<Rightarrow> py_error + string list" where
  "apply_extract_surname (Numeric []) = Inr []"
| "apply_extract_surname (Numeric (n # ns)) = Inl AttributeError"
| "apply_extract_surname (Obj cs) = apply_cells cs"

text \<open>
  Lines 171 to 188 are one pair of statements written five times, with a different table
  and different column labels each time and the constant \<^verbatim>\<open>0\<close> as the value compared with.
  \<open>highest_where\<close> is the first statement of the pair,
  \<^verbatim>\<open>df[df[p] == v].nlargest(1, r)[r].values[0]\<close>, and \<open>players_where\<close> the second,
  \<^verbatim>\<open>df[(df[p] == v) & (df[r] == highest)]['player'].apply(extract_surname)\<close>.
\<close>

definition highest_where ::
  "'n::linorder frame \<Rightarrow> string \<Rightarrow> 'n \<Rightarrow> string \<Rightarrow> py_error + 'n number" where
  "highest_where df p v r =
     (case getitem df p of
        Inl e \<Rightarrow> Inl e
      | Inr pc \<Rightarrow>
          (case nlargest1 (take_rows (eq_scalar pc (Val v)) df) r of
             Inl e \<Rightarrow> Inl e
           | Inr top1 \<Rightarrow>
               (case getitem top1 r of
                  Inl e \<Rightarrow> Inl e
                | Inr rc \<Rightarrow> values0 rc)))"

definition players_where ::
  "'n::linorder frame \<Rightarrow> string \<Rightarrow> 'n \<Rightarrow> string \<Rightarrow> 'n number \<Rightarrow> py_error + string list" where
  "players_where df p v r highest =
     (case getitem df p of
        Inl e \<Rightarrow> Inl e
      | Inr pc \<Rightarrow>
          (case getitem df r of
             Inl e \<Rightarrow> Inl e
           | Inr rc \<Rightarrow>
               (case getitem
                       (take_rows (map2 (\<and>) (eq_scalar pc (Val v)) (eq_scalar rc highest)) df)
                       ''player'' of
                  Inl e \<Rightarrow> Inl e
                | Inr names \<Rightarrow> apply_extract_surname names)))"

definition find_top ::
  "'n::linorder frame \<Rightarrow> string \<Rightarrow> 'n \<Rightarrow> string \<Rightarrow> py_error + 'n number \<times> string list" where
  "find_top df p v r =
     (case highest_where df p v r of
        Inl e \<Rightarrow> Inl e
      | Inr highest \<Rightarrow>
          (case players_where df p v r highest of
             Inl e \<Rightarrow> Inl e
           | Inr players \<Rightarrow> Inr (highest, players)))"

definition highest_shots_no_goal ::
  "'n::{linorder,zero} frame \<Rightarrow> py_error + 'n number" where
  "highest_shots_no_goal shooting_stats = highest_where shooting_stats ''goals'' 0 ''shots''"

definition players_highest_shots_no_goal ::
  "'n::{linorder,zero} frame \<Rightarrow> 'n number \<Rightarrow> py_error + string list" where
  "players_highest_shots_no_goal shooting_stats highest =
     players_where shooting_stats ''goals'' 0 ''shots'' highest"

section \<open>The run\<close>

record page =
  url :: string
  table_id :: string
  csv_name :: string

definition pages :: "page list" where
  "pages =
     [\<lparr>url = ''https://fbref.com/en/comps/9/stats/Premier-League-Stats'',
       table_id = ''stats_standard'', csv_name = ''standard_stats.csv''\<rparr>,
      \<lparr>url = ''https://fbref.com/en/comps/9/shooting/Premier-League-Stats'',
       table_id = ''stats_shooting'', csv_name = ''shooting_stats.csv''\<rparr>,
      \<lparr>url = ''https://fbref.com/en/comps/9/passing/Premier-League-Stats'',
       table_id = ''stats_passing'', csv_name = ''passing_stats.csv''\<rparr>,
      \<lparr>url = ''https://fbref.com/en/comps/9/defense/Premier-League-Stats'',
       table_id = ''stats_defense'', csv_name = ''defensive_actions_stats.csv''\<rparr>,
      \<lparr>url = ''https://fbref.com/en/comps/9/playingtime/Premier-League-Stats'',
       table_id = ''stats_playing_time'', csv_name = ''playing_time_stats.csv''\<rparr>,
      \<lparr>url = ''https://fbref.com/en/comps/9/misc/Premier-League-Stats'',
       table_id = ''stats_misc'', csv_name = ''miscellaneous_stats.csv''\<rparr>]"

text \<open>
  The loop of lines 150 to 154. There is no \<^verbatim>\<open>try\<close> in the script: an exception raised by
  \<^verbatim>\<open>scrape_table\<close> or \<^verbatim>\<open>convert_columns_to_numeric\<close> leaves the loop and ends the process.
\<close>

fun scrape_pages ::
  "('t, 'n) conversion \<Rightarrow> (string \<Rightarrow> py_error + node) \<Rightarrow> page list \<Rightarrow>
   (string \<rightharpoonup> 'n frame) \<Rightarrow> py_error + (string \<rightharpoonup> 'n frame)" where
  "scrape_pages conv driver [] dataframes = Inr dataframes"
| "scrape_pages conv driver (p # ps) dataframes =
     (case scrape_table driver (url p) (table_id p) of
        Inl e \<Rightarrow> Inl e
      | Inr df \<Rightarrow>
          (case normalize conv df of
             Inl e \<Rightarrow> Inl e
           | Inr df' \<Rightarrow> scrape_pages conv driver ps (dataframes(table_id p \<mapsto> df'))))"

text \<open>
  Lines 149 to 157: the loop, then \<^verbatim>\<open>driver.quit()\<close>. The browser session exists from
  line 16 on. \<open>driver_quit\<close> records whether line 157 was executed, \<open>loop_result\<close> what the
  loop left: the dictionary of frames, or the exception that ended the process.
\<close>

record 'n scrape_state =
  driver_quit :: bool
  loop_result :: "py_error + (string \<rightharpoonup> 'n frame)"

definition scrape_all ::
  "('t, 'n) conversion \<Rightarrow> (string \<Rightarrow> py_error + node) \<Rightarrow> 'n scrape_state" where
  "scrape_all conv driver =
     (case scrape_pages conv driver pages Map.empty of
        Inl e \<Rightarrow> \<lparr>driver_quit = False, loop_result = Inl e\<rparr>
      | Inr dataframes \<Rightarrow> \<lparr>driver_quit = True, loop_result = Inr dataframes\<rparr>)"

section \<open>Worked examples\<close>

text \<open>The three-row table of the spec's tie example, after normalisation.\<close>

definition tie_example :: "int frame" where
  "tie_example =
     \<lparr> index = [0, 1, 2],
       cols = [(''player'', Obj [Str ''A'', Str ''B'', Str ''C'']),
               (''goals'', Numeric [Val 0, Val 0, Val 1]),
               (''shots'', Numeric [Val 5, Val 5, Val 9])] \<rparr>"

text \<open>
  A page with one statistics table: a rank header that the scraper skips, two data headers,
  a complete row and a row without its \<^verbatim>\<open>goals\<close> cell.
\<close>

definition scrape_example :: node where
  "scrape_example =
     Tag ''html'' []
       [Tag ''table'' [(''id'', ''stats_shooting'')]
          [Tag ''thead'' []
             [Tag ''tr'' []
                [Tag ''th'' [(''scope'', ''col''), (''data-stat'', ''ranker'')] [],
                 Tag ''th'' [(''scope'', ''col''), (''data-stat'', ''player'')] [],
                 Tag ''th'' [(''scope'', ''col''), (''data-stat'', ''goals'')] []]],
           Tag ''tbody'' []
             [Tag ''tr'' []
                [Tag ''td'' [(''data-stat'', ''player'')] [NavigableString '' Ben White ''],
                 Tag ''td'' [(''data-stat'', ''goals'')] [NavigableString ''0'']],
              Tag ''tr'' []
                [Tag ''td'' [(''data-stat'', ''player'')] [NavigableString ''Player'']]]]]"

definition scraped_example :: "int frame" where
  "scraped_example =
     \<lparr> index = [0],
       cols = [(''player'', Obj [Str ''Ben White'']), (''goals'', Obj [Str ''0''])] \<rparr>"

text \<open>
  Two pages for the table identifier \<^verbatim>\<open>stats_shooting\<close>: one without any table, one whose
  table has that identifier but no \<^verbatim>\<open>thead\<close>.
\<close>

definition no_table_example :: node where
  "no_table_example = Tag ''html'' [] [Tag ''p'' [] [NavigableString ''Not found'']]"

definition no_thead_example :: node where
  "no_thead_example =
     Tag ''html'' [] [Tag ''table'' [(''id'', ''stats_shooting'')] [Tag ''tbody'' [] []]]"

text \<open>
  A table as the scraper leaves it, all text: a column with an unparseable value, a column
  with an empty cell, and a column of integers.
\<close>

definition text_example :: "int frame" where
  "text_example =
     \<lparr> index = [0, 1, 2],
       cols = [(''minutes'', Obj [Str ''12'', Str ''7'', Str ''n/a'']),
               (''xg'', Obj [Str ''3'', Str '''', Str ''-4'']),
               (''goals'', Obj [Str ''0'', Str ''2'', Str ''1''])] \<rparr>"

definition normalized_example :: "int frame" where
  "normalized_example =
     \<lparr> index = [0, 1, 2],
       cols = [(''minutes'', Obj [Str ''12'', Str ''7'', Str ''n/a'']),
               (''xg'', Numeric [Val 3, NaN, Val (- 4)]),
               (''goals'', Numeric [Val 0, Val 2, Val 1])] \<rparr>"

text \<open>
  The notions the amended claim C4 is stated with. A value is read when it is \<^verbatim>\<open>None\<close>,
  the empty string, or a string the scalar parser accepts; \<open>tokens\<close> are the values read
  from a column; the values of a column are accepted together when the choice for the
  column does not refuse them.
\<close>

definition is_read :: "('t, 'n) conversion \<Rightarrow> cell \<Rightarrow> bool" where
  "is_read conv x =
     (case x of PyNone \<Rightarrow> True | Str s \<Rightarrow> s = [] \<or> scan_string conv s \<noteq> None)"

definition tokens :: "('t, 'n) conversion \<Rightarrow> cell list \<Rightarrow> 't token list" where
  "tokens conv cs = map (\<lambda>x. the (to_token (scan_string conv) x)) cs"

definition accepted_together :: "('t, 'n) conversion \<Rightarrow> cell list \<Rightarrow> bool" where
  "accepted_together conv cs \<longleftrightarrow> decide_column conv (tokens conv cs) \<noteq> None"

text \<open>A page that holds all six tables, each with an empty head and an empty body.\<close>

definition all_tables_example :: node where
  "all_tables_example =
     Tag ''html'' []
       (map (\<lambda>p. Tag ''table'' [(''id'', table_id p)] [Tag ''thead'' [] [], Tag ''tbody'' [] []])
          pages)"

text \<open>Two players with the same surname share the record.\<close>

definition same_surname_example :: "int frame" where
  "same_surname_example =
     \<lparr> index = [0, 1, 2],
       cols = [(''player'', Obj [Str ''Ben White'', Str ''Kai Havertz'', Str ''Joe White'']),
               (''goals'', Numeric [Val 0, Val 0, Val 0]),
               (''shots'', Numeric [Val 5, Val 3, Val 5])] \<rparr>"

text \<open>
  The value of a column at a row position, used to state which rows a query selects:
  the number of a numeric column, the string of an object column.
\<close>

fun num_at :: "'n column \<Rightarrow> nat \<Rightarrow> 'n number option" where
  "num_at (Numeric ns) i = Some (ns ! i)"
| "num_at (Obj cs) i = None"

fun str_at :: "'n column \<Rightarrow> nat \<Rightarrow> string option" where
  "str_at (Obj cs) i = (case cs ! i of Str s \<Rightarrow> Some s | PyNone \<Rightarrow> None)"
| "str_at (Numeric ns) i = None"

text \<open>
  The positions of the rows that have the number \<open>v\<close> in column \<open>pc\<close> and the number \<open>m\<close>
  in column \<open>rc\<close>, in table order.
\<close>

definition selected_rows ::
  "'n frame \<Rightarrow> 'n column \<Rightarrow> 'n \<Rightarrow> 'n column \<Rightarrow> 'n number \<Rightarrow> nat list" where
  "selected_rows df pc v rc m =
     filter (\<lambda>i. num_at pc i = Some (Val v) \<and> m \<noteq> NaN \<and> num_at rc i = Some m)
       [0 ..< length (index df)]"

section \<open>Properties of the name reducer\<close>

lemma split_py_Nil_iff: "split_py s = [] \<longleftrightarrow> (\<forall>c\<in>set s. is_space c)"
proof (cases "dropWhile is_space s")
  case Nil
  then have "split_py s = []" by (subst split_py.simps) (simp only: list.case)
  moreover from Nil have "\<forall>c\<in>set s. is_space c" by simp
  ultimately show ?thesis by simp
next
  case (Cons c cs)
  then have "split_py s \<noteq> []" by (subst split_py.simps) (simp only: list.case, simp)
  moreover have "\<not> (\<forall>c\<in>set s. is_space c)"
    using Cons dropWhile_eq_Nil_conv [of is_space s] by auto
  ultimately show ?thesis by simp
qed

text \<open>
  The last piece returned by \<open>split_py\<close> sits at the end of the string, followed by nothing
  but whitespace and preceded by whitespace or by nothing.
\<close>

lemma split_py_last:
  "split_py s \<noteq> [] \<Longrightarrow>
     \<exists>pre post. s = pre @ last (split_py s) @ post \<and> last (split_py s) \<noteq> [] \<and>
       (\<forall>c\<in>set (last (split_py s)). \<not> is_space c) \<and> (\<forall>c\<in>set post. is_space c) \<and>
       (pre = [] \<or> is_space (last pre))"
proof (induction s rule: split_py.induct)
  case (1 s)
  define ws where "ws = takeWhile is_space s"
  define t where "t = dropWhile is_space s"
  have s_eq: "s = ws @ t" by (simp add: ws_def t_def)
  have ws_sp: "\<forall>c\<in>set ws. is_space c"
    unfolding ws_def by (auto dest: set_takeWhileD)
  from "1.prems" have t_ne: "t \<noteq> []"
    unfolding t_def using split_py_Nil_iff [of s] by (simp add: dropWhile_eq_Nil_conv)
  then obtain c cs where t_cons: "t = c # cs" by (cases t) auto
  define tok where "tok = takeWhile (\<lambda>x. \<not> is_space x) t"
  define rest where "rest = dropWhile (\<lambda>x. \<not> is_space x) t"
  have t_eq: "t = tok @ rest" by (simp add: tok_def rest_def)
  have c_ns: "\<not> is_space c"
    using hd_dropWhile [of is_space s] t_cons t_def by (metis list.sel(1) list.simps(3))
  have tok_ne: "tok \<noteq> []" unfolding tok_def t_cons using c_ns by simp
  have tok_ns: "\<forall>c\<in>set tok. \<not> is_space c"
    unfolding tok_def by (auto dest: set_takeWhileD)
  have rest_hd: "rest \<noteq> [] \<Longrightarrow> is_space (hd rest)"
    unfolding rest_def using hd_dropWhile [of "\<lambda>x. \<not> is_space x" t] by auto
  have sp: "split_py s = tok # split_py rest"
    by (subst split_py.simps) (simp add: t_def [symmetric] t_cons tok_def rest_def)
  show ?case
  proof (cases "split_py rest = []")
    case True
    then have "\<forall>c\<in>set rest. is_space c" by (simp add: split_py_Nil_iff)
    moreover have "last (split_py s) = tok" using sp True by simp
    moreover have "ws = [] \<or> is_space (last ws)"
      using ws_sp by (cases ws rule: rev_cases) auto
    ultimately show ?thesis
      using s_eq t_eq tok_ne tok_ns by (intro exI [of _ ws] exI [of _ rest]) auto
  next
    case False
    have "\<exists>pre post. rest = pre @ last (split_py rest) @ post \<and> last (split_py rest) \<noteq> [] \<and>
       (\<forall>c\<in>set (last (split_py rest)). \<not> is_space c) \<and> (\<forall>c\<in>set post. is_space c) \<and>
       (pre = [] \<or> is_space (last pre))"
      using "1.IH" [OF t_cons [unfolded t_def]] False
      by (simp add: rest_def t_cons t_def)
    then obtain pre post where r: "rest = pre @ last (split_py rest) @ post"
      and l_ne: "last (split_py rest) \<noteq> []"
      and l_ns: "\<forall>c\<in>set (last (split_py rest)). \<not> is_space c"
      and post_sp: "\<forall>c\<in>set post. is_space c"
      and pre_sp: "pre = [] \<or> is_space (last pre)" by blast
    have pre_ne: "pre \<noteq> []"
    proof
      assume "pre = []"
      then have "hd rest = hd (last (split_py rest))"
        using r l_ne by (metis append_Nil hd_append2)
      moreover have "rest \<noteq> []" using r l_ne by auto
      ultimately show False using rest_hd l_ns l_ne by (metis hd_in_set)
    qed
    have last_eq: "last (split_py s) = last (split_py rest)" using sp False by simp
    have "s = (ws @ tok @ pre) @ last (split_py s) @ post"
      using s_eq t_eq r last_eq by simp
    moreover have "is_space (last (ws @ tok @ pre))" using pre_ne pre_sp by simp
    ultimately show ?thesis
      using l_ne l_ns post_sp last_eq
      by (intro exI [of _ "ws @ tok @ pre"] exI [of _ post]) auto
  qed
qed

lemma extract_surname_last: "split_py s \<noteq> [] \<Longrightarrow> extract_surname s = Inr (last (split_py s))"
  by (cases "split_py s") (simp_all add: extract_surname_def)

text \<open>
  Claim C10. \<^verbatim>\<open>extract_surname\<close> is partial. On a string with at least one character that
  is not whitespace it returns the last whitespace-separated token: a non-empty piece of the
  string without whitespace, followed by whitespace only and preceded by whitespace or by
  the start of the string. On the empty string and on a string of whitespace only it raises
  \<^verbatim>\<open>IndexError\<close> and returns no string.
\<close>

theorem extract_surname_partial:
  "((\<exists>c\<in>set s. \<not> is_space c) \<longrightarrow>
      (\<exists>pre t post. extract_surname s = Inr t \<and> t = last (split_py s) \<and> s = pre @ t @ post \<and>
         t \<noteq> [] \<and> (\<forall>c\<in>set t. \<not> is_space c) \<and> (\<forall>c\<in>set post. is_space c) \<and>
         (pre = [] \<or> is_space (last pre)))) \<and>
   ((\<forall>c\<in>set s. is_space c) \<longrightarrow> extract_surname s = Inl IndexError)"
proof (intro conjI impI)
  assume "\<exists>c\<in>set s. \<not> is_space c"
  then have ne: "split_py s \<noteq> []" by (simp add: split_py_Nil_iff)
  from split_py_last [OF ne] obtain pre post where
    "s = pre @ last (split_py s) @ post" "last (split_py s) \<noteq> []"
    "\<forall>c\<in>set (last (split_py s)). \<not> is_space c" "\<forall>c\<in>set post. is_space c"
    "pre = [] \<or> is_space (last pre)" by blast
  then show "\<exists>pre t post. extract_surname s = Inr t \<and> t = last (split_py s) \<and> s = pre @ t @ post \<and>
         t \<noteq> [] \<and> (\<forall>c\<in>set t. \<not> is_space c) \<and> (\<forall>c\<in>set post. is_space c) \<and>
         (pre = [] \<or> is_space (last pre))"
    using extract_surname_last [OF ne] by blast
next
  assume "\<forall>c\<in>set s. is_space c"
  then have "split_py s = []" by (simp add: split_py_Nil_iff)
  then show "extract_surname s = Inl IndexError" by (simp add: extract_surname_def)
qed

theorem extract_surname_partial_witness:
  "(\<exists>c\<in>set ''Erling Haaland''. \<not> is_space c) \<and>
   extract_surname ''Erling Haaland'' = Inr ''Haaland'' \<and>
   list_all is_space ''  '' \<and>
   extract_surname ''  '' = Inl IndexError"
proof -
  have a: "\<exists>c\<in>set ''Erling Haaland''. \<not> is_space c" by (simp add: is_space_def)
  have b: "\<forall>c\<in>set ''  ''. is_space c" by (simp add: is_space_def)
  from extract_surname_partial [of "''Erling Haaland''"] a
  have "extract_surname ''Erling Haaland'' = Inr (last (split_py ''Erling Haaland''))"
    by blast
  moreover have "last (split_py ''Erling Haaland'') = ''Haaland''"
    by (simp add: split_py.simps is_space_def)
  moreover from extract_surname_partial [of "''  ''"] b
  have "extract_surname ''  '' = Inl IndexError" by blast
  moreover have "list_all is_space ''  ''" by (simp add: is_space_def)
  ultimately show ?thesis using a by simp
qed

section \<open>Properties of the record finder\<close>

text \<open>
  Claim C1. On the three-row table with players A, B, C, goals 0, 0, 1 and shots 5, 5, 9,
  the query "goals equal to 0, ranked by shots" gives the value 5 and the surnames A and B:
  row C does not satisfy the predicate, and both rows that hold the maximum are kept.
  The two statements of lines 171 and 172 give the two components.
\<close>

theorem find_top_tie_example:
  "find_top tie_example ''goals'' 0 ''shots'' = Inr (Val 5, [''A'', ''B'']) \<and>
   highest_shots_no_goal tie_example = Inr (Val 5) \<and>
   players_highest_shots_no_goal tie_example (Val 5) = Inr [''A'', ''B'']"
  by (simp add: tie_example_def find_top_def highest_shots_no_goal_def
      players_highest_shots_no_goal_def highest_where_def players_where_def getitem_def
      nlargest1_def take_rows_def select_def nlargest_pos_def extract_surname_def
      split_py.simps is_space_def)

section \<open>Properties of the table extractor\<close>

lemma select_map: "select m (map f xs) = map f (select m xs)"
  by (induction m arbitrary: xs) (auto simp: select_def split: list.splits simp: zip_Cons1)

lemma select_Nil [simp]: "select [] xs = []" "select m [] = []"
  by (simp_all add: select_def)

lemma select_Cons [simp]:
  "select (b # m) (x # xs) = (if b then x # select m xs else select m xs)"
  by (simp add: select_def)

lemma set_select:
  "x \<in> set (select m xs) \<Longrightarrow> \<exists>i. i < length m \<and> i < length xs \<and> m ! i \<and> xs ! i = x"
  by (auto simp: select_def in_set_zip)

lemma length_select: "length (select m xs) = length (filter (\<lambda>b. b) (take (length xs) m))"
proof (induction m arbitrary: xs)
  case Nil
  then show ?case by simp
next
  case (Cons b m)
  then show ?case by (cases xs) auto
qed

lemma isna_take_col: "isna (take_col m c) = select m (isna c)"
  by (cases c) (simp_all add: select_map)

lemma col_length_isna: "length (isna c) = col_length c"
  by (cases c) simp_all

lemma col_length_take_col:
  "col_length (take_col m c) = length (filter (\<lambda>b. b) (take (col_length c) m))"
  by (cases c) (simp_all add: length_select)

lemma well_formed_take_rows:
  assumes "well_formed df"
  shows "well_formed (take_rows m df)"
proof -
  have "col_length (take_col m c) = length (select m (index df))"
    if "(l, c) \<in> set (cols df)" for l c
  proof -
    from assms that have "col_length c = length (index df)"
      by (auto simp: well_formed_def list_all_iff)
    then show ?thesis by (simp add: col_length_take_col length_select)
  qed
  then show ?thesis
    unfolding well_formed_def take_rows_def list_all_iff by fastforce
qed

lemma well_formed_DataFrame: "well_formed (DataFrame data headers)"
  by (auto simp: well_formed_def DataFrame_def list_all_iff)

lemma dropna_no_null:
  assumes "(l, c) \<in> set (cols (dropna df))" and "b \<in> set (isna c)"
  shows "\<not> b"
proof -
  define keep where
    "keep = map (\<lambda>i. list_all (\<lambda>(l, c). \<not> isna c ! i) (cols df)) [0 ..< length (index df)]"
  from assms(1) have "(l, c) \<in> set (map (\<lambda>(l, c). (l, take_col keep c)) (cols df))"
    by (simp add: dropna_def take_rows_def keep_def)
  then obtain p where p: "p \<in> set (cols df)" "(l, c) = (case p of (l, c) \<Rightarrow> (l, take_col keep c))"
    unfolding set_map by blast
  obtain l0 c0 where pe: "p = (l0, c0)" by (cases p)
  with p have c0: "(l, c0) \<in> set (cols df)" and c: "c = take_col keep c0" by simp_all
  from assms(2) have "b \<in> set (select keep (isna c0))" unfolding c isna_take_col .
  then have "\<exists>i. i < length keep \<and> i < length (isna c0) \<and> keep ! i \<and> isna c0 ! i = b"
    by (rule set_select)
  then obtain i where i: "i < length keep" "i < length (isna c0)" "keep ! i" "isna c0 ! i = b"
    by (elim exE conjE)
  from i(1,3) have "list_all (\<lambda>(l, c). \<not> isna c ! i) (cols df)" by (simp add: keep_def)
  then have "\<forall>p\<in>set (cols df). (case p of (l, c) \<Rightarrow> \<not> isna c ! i)"
    by (simp only: list_all_iff)
  with c0 have "\<not> isna c0 ! i" by fastforce
  with i(4) show ?thesis by simp
qed

lemma scrape_table_from_dropna:
  "scrape_table_from soup tid = Inr df \<Longrightarrow> \<exists>data headers. df = dropna (DataFrame data headers)"
  unfolding scrape_table_from_def Let_def
  by (simp split: option.splits sum.splits) blast

text \<open>
  Claim C3. Whatever page the browser returns and whatever the table identifier, a table
  returned by \<^verbatim>\<open>scrape_table\<close> has no null in any row: every column is as long as the
  index, and at every row position no column is null there. Rows with a missing cell were
  removed by \<^verbatim>\<open>dropna\<close> before the return.
\<close>

theorem scrape_table_no_null:
  assumes "scrape_table driver u tid = Inr df"
  shows "well_formed df \<and> (\<forall>i < length (index df). \<forall>(l, c) \<in> set (cols df). \<not> isna c ! i)"
proof -
  from assms obtain soup where "scrape_table_from soup tid = Inr df"
    by (auto simp: scrape_table_def split: sum.splits)
  then obtain data headers where df: "df = dropna (DataFrame data headers :: 'a frame)"
    using scrape_table_from_dropna by blast
  have wf: "well_formed df"
    unfolding df dropna_def by (rule well_formed_take_rows) (rule well_formed_DataFrame)
  have "\<not> isna c ! i" if "i < length (index df)" "(l, c) \<in> set (cols df)" for i l c
  proof -
    from wf that(2) have "length (isna c) = length (index df)"
      by (auto simp: well_formed_def list_all_iff col_length_isna)
    with that(1) have "isna c ! i \<in> set (isna c)" by simp
    from dropna_no_null [OF that(2) [unfolded df] this] show ?thesis .
  qed
  with wf show ?thesis by blast
qed


theorem scrape_table_no_null_witness:
  "scrape_table (\<lambda>a. Inr scrape_example) ''shooting'' ''stats_shooting'' = Inr scraped_example \<and>
   well_formed scraped_example \<and>
   list_all (\<lambda>(l, c). \<not> isna c ! 0) (cols scraped_example)"
proof -
  have e: "scrape_table (\<lambda>a. Inr scrape_example) ''shooting'' ''stats_shooting''
             = Inr scraped_example"
    by (simp add: scrape_table_def scrape_table_from_def scrape_example_def scraped_example_def
        find_def find_all_def row_data_def DataFrame_def dropna_def take_rows_def select_def
        strip_def is_space_def enumerate_eq_zip)
  from scrape_table_no_null [OF e] have "well_formed scraped_example" by (rule conjunct1)
  moreover have "list_all (\<lambda>(l, c). \<not> isna c ! 0) (cols scraped_example)"
    by (simp add: scraped_example_def)
  ultimately show ?thesis using e by simp
qed

lemma find_None_iff: "find t nm flt = None \<longleftrightarrow> (\<forall>x\<in>set (descendants t). \<not> matches nm flt x)"
proof -
  have "find t nm flt = None \<longleftrightarrow> filter (matches nm flt) (descendants t) = []"
    by (simp add: find_def find_all_def split: list.splits)
  then show ?thesis by (simp add: filter_empty_conv)
qed

text \<open>
  Claim C6, as the code has it. When the page has no \<^verbatim>\<open>table\<close> tag with the given
  identifier, \<^verbatim>\<open>scrape_table\<close> returns no table: \<^verbatim>\<open>soup.find\<close> gives \<^verbatim>\<open>None\<close> and the access
  \<^verbatim>\<open>table.thead\<close> on line 82 raises \<^verbatim>\<open>AttributeError\<close>.
\<close>

theorem scrape_table_missing_table:
  assumes "driver u = Inr soup"
    and "\<forall>t\<in>set (descendants soup). \<not> matches ''table'' [(''id'', tid)] t"
  shows "scrape_table driver u tid = Inl AttributeError"
proof -
  from assms(2) have "find soup ''table'' [(''id'', tid)] = None"
    by (simp only: find_None_iff)
  then have "scrape_table_from soup tid = Inl AttributeError"
    by (simp add: scrape_table_from_def)
  with assms(1) show ?thesis by (simp add: scrape_table_def)
qed

theorem scrape_table_missing_table_witness:
  "scrape_table (\<lambda>a. Inr scrape_example) ''passing'' ''stats_passing''
     = (Inl AttributeError :: py_error + int frame)"
proof -
  have "\<forall>t\<in>set (descendants scrape_example). \<not> matches ''table'' [(''id'', ''stats_passing'')] t"
    by (simp add: scrape_example_def)
  then show ?thesis
    by (rule scrape_table_missing_table [of "\<lambda>a. Inr scrape_example", OF refl])
qed

text \<open>
  Claim C6, as the spec states it, asks for an error that marks the missing table and
  nothing else. The exception of the code does not: a page that has the table, but a table
  without \<^verbatim>\<open>thead\<close>, ends in the same \<^verbatim>\<open>AttributeError\<close>, raised one attribute access later
  on the same line.
\<close>

theorem missing_table_error_not_distinguished:
  "find no_table_example ''table'' [(''id'', ''stats_shooting'')] = None \<and>
   scrape_table_from no_table_example ''stats_shooting''
     = (Inl AttributeError :: py_error + int frame) \<and>
   find no_thead_example ''table'' [(''id'', ''stats_shooting'')]
     = Some (Tag ''table'' [(''id'', ''stats_shooting'')] [Tag ''tbody'' [] []]) \<and>
   scrape_table_from no_thead_example ''stats_shooting''
     = (Inl AttributeError :: py_error + int frame)"
  by (simp add: scrape_table_from_def no_table_example_def no_thead_example_def find_def
      find_all_def)

section \<open>Properties of the type normalizer\<close>

text \<open>An integer of magnitude below \<open>2 ^ 53\<close> is a double.\<close>

lemma float64_of_int_small: "\<bar>n\<bar> < 2 ^ 53 \<Longrightarrow> float64_of_int n = n"
proof -
  assume "\<bar>n\<bar> < 2 ^ 53"
  then have "nat \<bar>n\<bar> < 2 ^ 53" by simp
  then have "excess_bits (nat \<bar>n\<bar>) = 0" by (subst excess_bits.simps) simp
  then show ?thesis by (simp add: float64_of_int_def Let_def)
qed

lemma to_numeric_ignore_idem:
  "to_numeric_ignore conv (to_numeric_ignore conv c) = to_numeric_ignore conv c"
  by (cases c) (simp_all split: option.splits)

lemma set_col_map:
  "distinct (map fst kvs) \<Longrightarrow> map_of kvs l = Some c \<Longrightarrow>
   set_col l (f c) kvs = map (\<lambda>(k, v). (k, if k = l then f v else v)) kvs"
proof (induction kvs)
  case Nil
  then show ?case by simp
next
  case (Cons kv kvs)
  obtain k v where kv: "kv = (k, v)" by (cases kv)
  show ?case
  proof (cases "k = l")
    case True
    with Cons.prems kv have "v = c" by simp
    moreover from Cons.prems kv True have "l \<notin> fst ` set kvs" by simp
    then have "map (\<lambda>(k, v). (k, if k = l then f v else v)) kvs = kvs"
      by (intro map_idI) (auto simp: image_iff)
    ultimately show ?thesis using kv True by simp
  next
    case False
    with Cons kv show ?thesis by simp
  qed
qed

lemma filter_label_unique:
  "distinct (map fst kvs) \<Longrightarrow> map_of kvs l = Some c \<Longrightarrow>
   map snd (filter (\<lambda>kv. fst kv = l) kvs) = [c]"
proof (induction kvs)
  case Nil
  then show ?case by simp
next
  case (Cons kv kvs)
  obtain k v where kv: "kv = (k, v)" by (cases kv)
  show ?case
  proof (cases "k = l")
    case True
    with Cons.prems kv have "v = c" by simp
    moreover from Cons.prems kv True have "l \<notin> fst ` set kvs" by simp
    then have "filter (\<lambda>kv. fst kv = l) kvs = []"
      by (auto simp: filter_empty_conv)
    ultimately show ?thesis using kv True by simp
  next
    case False
    with Cons kv show ?thesis by simp
  qed
qed

text \<open>
  On a frame with unique labels the loop converts exactly the columns whose labels it is
  given, and raises nothing.
\<close>

lemma convert_loop_spec:
  "distinct (map fst (cols (h df))) \<Longrightarrow> set ls \<subseteq> fst ` set (cols (h df)) \<Longrightarrow>
   convert_loop conv df ls h =
     (None, h(df := (h df)\<lparr>cols :=
        map (\<lambda>(l, c). (l, if l \<in> set ls then to_numeric_ignore conv c else c)) (cols (h df))\<rparr>))"
proof (induction ls arbitrary: h)
  case Nil
  then show ?case by simp
next
  case (Cons col rest)
  from Cons.prems(2) obtain c where c: "map_of (cols (h df)) col = Some c"
    by (auto simp: image_iff dest!: weak_map_of_SomeI)
  have one: "columns_of (h df) col = [c]"
    unfolding columns_of_def by (rule filter_label_unique [OF Cons.prems(1) c])
  define cs1 where
    "cs1 = map (\<lambda>(k, v). (k, if k = col then to_numeric_ignore conv v else v)) (cols (h df))"
  define h1 where "h1 = h(df := (h df)\<lparr>cols := cs1\<rparr>)"
  have set1: "setitem (h df) col (to_numeric_ignore conv c) = (h df)\<lparr>cols := cs1\<rparr>"
    unfolding setitem_def cs1_def using set_col_map [OF Cons.prems(1) c] by simp
  have fst1: "map fst cs1 = map fst (cols (h df))"
    unfolding cs1_def by (induction "cols (h df)") auto
  have step: "convert_loop conv df (col # rest) h = convert_loop conv df rest h1"
    using one set1 by (simp add: h1_def)
  have d1: "distinct (map fst (cols (h1 df)))"
    using Cons.prems(1) fst1 by (simp add: h1_def)
  have s1: "set rest \<subseteq> fst ` set (cols (h1 df))"
  proof -
    have "fst ` set (cols (h1 df)) = set (map fst cs1)" by (simp add: h1_def)
    then show ?thesis using Cons.prems(2) fst1 by simp
  qed
  have comp: "map (\<lambda>(l, c). (l, if l \<in> set rest then to_numeric_ignore conv c else c)) cs1 =
      map (\<lambda>(l, c). (l, if l \<in> set (col # rest) then to_numeric_ignore conv c else c))
        (cols (h df))"
    unfolding cs1_def by (auto simp: to_numeric_ignore_idem)
  have "convert_loop conv df rest h1 =
     (None, h1(df := (h1 df)\<lparr>cols :=
        map (\<lambda>(l, c). (l, if l \<in> set rest then to_numeric_ignore conv c else c)) (cols (h1 df))\<rparr>))"
    by (rule Cons.IH [of h1, OF d1 s1])
  also have "h1(df := (h1 df)\<lparr>cols :=
        map (\<lambda>(l, c). (l, if l \<in> set rest then to_numeric_ignore conv c else c)) (cols (h1 df))\<rparr>)
     = h(df := (h df)\<lparr>cols :=
        map (\<lambda>(l, c). (l, if l \<in> set (col # rest) then to_numeric_ignore conv c else c))
          (cols (h df))\<rparr>)"
    using comp by (simp add: h1_def)
  finally show ?case using step by simp
qed

lemma convert_columns_to_numeric_spec:
  assumes "unique_labels (h df)"
  shows "convert_columns_to_numeric conv df h =
     (Inr df, h(df := (h df)\<lparr>cols :=
        map (\<lambda>(l, c). (l, to_numeric_ignore conv c)) (cols (h df))\<rparr>))"
proof -
  have eq1: "map (\<lambda>(l, c). (l, if l \<in> set (map fst (cols (h df))) then to_numeric_ignore conv c else c))
          (cols (h df))
        = map (\<lambda>(l, c). (l, to_numeric_ignore conv c)) (cols (h df))"
    by (rule map_cong [OF refl]) force
  have loop: "convert_loop conv df (map fst (cols (h df))) h =
     (None, h(df := (h df)\<lparr>cols :=
        map (\<lambda>(l, c). (l, if l \<in> set (map fst (cols (h df))) then to_numeric_ignore conv c else c))
          (cols (h df))\<rparr>))"
    using assms by (intro convert_loop_spec) (simp_all add: unique_labels_def)
  show ?thesis
    unfolding convert_columns_to_numeric_def loop eq1 by simp
qed

lemma normalize_spec:
  "unique_labels T \<Longrightarrow>
   normalize conv T = Inr (T\<lparr>cols := map (\<lambda>(l, c). (l, to_numeric_ignore conv c)) (cols T)\<rparr>)"
  by (simp add: normalize_def convert_columns_to_numeric_spec)

text \<open>
  A repeated label ends the loop with \<^verbatim>\<open>TypeError\<close>, whatever the conversion: the model of
  the normalizer is not restricted to unique labels.
\<close>

lemma normalize_repeated_label:
  "normalize conv \<lparr>index = [0], cols = [(''a'', Obj [Str ''1'']), (''a'', Obj [Str ''2''])]\<rparr>
     = Inl TypeError"
  by (simp add: normalize_def convert_columns_to_numeric_def columns_of_def)

text \<open>
  In a column with a missing value the example conversion rounds as \<^verbatim>\<open>float64\<close> does:
  \<open>2 ^ 53 + 1\<close> becomes \<open>2 ^ 53\<close>.
\<close>

lemma float64_of_int_rounds: "float64_of_int 9007199254740993 = 9007199254740992"
  by (simp add: float64_of_int_def excess_bits.simps Let_def)

lemma to_numeric_ignore_rounds:
  "to_numeric_ignore int_conversion (Obj [Str ''9007199254740993'', Str []])
     = Numeric [Val 9007199254740992, NaN]"
  by (simp add: int_conversion_def scan_int_def int_literal_def decide_int64_def digit_of_def
      float64_of_int_rounds)

lemma those_map_the:
  "those (map f xs) = (if \<forall>x\<in>set xs. f x \<noteq> None then Some (map (\<lambda>x. the (f x)) xs) else None)"
  by (induction xs) (auto split: option.splits)

lemma is_read_iff: "is_read conv x \<longleftrightarrow> to_token (scan_string conv) x \<noteq> None"
  by (cases x) (auto simp: is_read_def)

lemma to_numeric_ignore_Obj:
  "to_numeric_ignore conv (Obj cs) =
     (if (\<forall>x\<in>set cs. is_read conv x) \<and> accepted_together conv cs
      then Numeric (the (decide_column conv (tokens conv cs)))
      else Obj cs)"
proof (cases "\<forall>x\<in>set cs. is_read conv x")
  case True
  then have "those (map (to_token (scan_string conv)) cs) = Some (tokens conv cs)"
    by (simp add: those_map_the is_read_iff tokens_def)
  with True show ?thesis
    by (auto simp: accepted_together_def)
next
  case False
  then have "those (map (to_token (scan_string conv)) cs) = None"
    by (simp add: those_map_the is_read_iff)
  with False show ?thesis by simp
qed

text \<open>
  Claim C4, as the code has it. The normalizer raises nothing on a table, keeps the index
  and the labels, and treats every column on its own. A numeric column is returned as it
  is. An object column becomes numeric if and only if every value in it is read, that is,
  is \<^verbatim>\<open>None\<close>, the empty string or a string the scalar parser accepts, and the values read
  are accepted together as one numeric column. Otherwise the whole column stays as it was;
  so it does whenever a single value is a string that the parser refuses.
\<close>

theorem normalize_columnwise:
  assumes "unique_labels T"
  shows "\<exists>T'. normalize conv T = Inr T' \<and> index T' = index T \<and>
           map fst (cols T') = map fst (cols T) \<and>
           (\<forall>j<length (cols T).
              (case snd (cols T ! j) of
                 Numeric ns \<Rightarrow> snd (cols T' ! j) = Numeric ns
               | Obj cs \<Rightarrow>
                   if (\<forall>x\<in>set cs. is_read conv x) \<and> accepted_together conv cs
                   then snd (cols T' ! j) = Numeric (the (decide_column conv (tokens conv cs)))
                   else snd (cols T' ! j) = Obj cs))"
proof -
  define T' where "T' = T\<lparr>cols := map (\<lambda>(l, c). (l, to_numeric_ignore conv c)) (cols T)\<rparr>"
  have n: "normalize conv T = Inr T'"
    unfolding T'_def by (rule normalize_spec [OF assms])
  have i: "index T' = index T" by (simp add: T'_def)
  have f: "map fst (cols T') = map fst (cols T)"
    unfolding T'_def by (induction "cols T") auto
  have c: "snd (cols T' ! j) = to_numeric_ignore conv (snd (cols T ! j))"
    if "j < length (cols T)" for j
    using that by (simp add: T'_def split_beta)
  have "case snd (cols T ! j) of
          Numeric ns \<Rightarrow> snd (cols T' ! j) = Numeric ns
        | Obj cs \<Rightarrow>
            if (\<forall>x\<in>set cs. is_read conv x) \<and> accepted_together conv cs
            then snd (cols T' ! j) = Numeric (the (decide_column conv (tokens conv cs)))
            else snd (cols T' ! j) = Obj cs"
    if "j < length (cols T)" for j
  proof (cases "snd (cols T ! j)")
    case (Obj cs)
    then show ?thesis
      using c [OF that] unfolding Obj to_numeric_ignore_Obj
      by (simp del: to_numeric_ignore.simps)
  next
    case (Numeric ns)
    then show ?thesis using c [OF that] by simp
  qed
  with n i f show ?thesis by blast
qed

theorem normalize_columnwise_witness:
  "unique_labels text_example \<and>
   normalize int_conversion text_example = Inr normalized_example \<and>
   \<not> is_read int_conversion (Str ''n/a'') \<and>
   snd (cols normalized_example ! 0) = Obj [Str ''12'', Str ''7'', Str ''n/a'']"
proof -
  have u: "unique_labels text_example"
    by (simp add: unique_labels_def text_example_def)
  have e: "normalize int_conversion text_example = Inr normalized_example"
    by (simp add: normalize_def convert_columns_to_numeric_def columns_of_def setitem_def
        int_conversion_def scan_int_def int_literal_def decide_int64_def float64_of_int_small
        digit_of_def text_example_def normalized_example_def)
  from normalize_columnwise [OF u, of int_conversion] obtain T' where
    n: "normalize int_conversion text_example = Inr T'"
    and c: "\<forall>j<length (cols text_example).
              (case snd (cols text_example ! j) of
                 Numeric ns \<Rightarrow> snd (cols T' ! j) = Numeric ns
               | Obj cs \<Rightarrow>
                   if (\<forall>x\<in>set cs. is_read int_conversion x) \<and> accepted_together int_conversion cs
                   then snd (cols T' ! j)
                          = Numeric (the (decide_column int_conversion (tokens int_conversion cs)))
                   else snd (cols T' ! j) = Obj cs)"
    by blast
  from n e have t: "T' = normalized_example" by simp
  have na: "\<not> is_read int_conversion (Str ''n/a'')"
    by (simp add: is_read_def int_conversion_def scan_int_def int_literal_def digit_of_def)
  have "snd (cols T' ! 0) = Obj [Str ''12'', Str ''7'', Str ''n/a'']"
    using c [rule_format, of 0] na by (simp add: text_example_def)
  with t have "snd (cols normalized_example ! 0) = Obj [Str ''12'', Str ''7'', Str ''n/a'']"
    by simp
  with u e na show ?thesis by simp
qed

text \<open>
  Claim C4, as the spec states it, makes a column numeric if and only if every value
  parses as an integer or a decimal. Neither direction holds. The empty string is no
  number, and the scalar parser refuses it, yet a column that holds it next to a number is
  converted: the empty cell becomes \<^verbatim>\<open>NaN\<close>. And two strings that are integers, each read
  by the parser, are refused together: \<open>2 ^ 63\<close> needs \<^verbatim>\<open>uint64\<close>, which has no \<open>- 1\<close>, so
  the column stays textual.
\<close>

theorem normalize_empty_string_counterexample:
  "scan_int '''' = None \<and>
   normalize int_conversion \<lparr>index = [0, 1], cols = [(''xg'', Obj [Str ''12'', Str ''''])]\<rparr>
     = Inr \<lparr>index = [0, 1], cols = [(''xg'', Numeric [Val 12, NaN])]\<rparr> \<and>
   scan_int ''9223372036854775808'' = Some 9223372036854775808 \<and>
   scan_int ''-1'' = Some (- 1) \<and>
   normalize int_conversion
       \<lparr>index = [0, 1], cols = [(''id'', Obj [Str ''9223372036854775808'', Str ''-1''])]\<rparr>
     = Inr \<lparr>index = [0, 1], cols = [(''id'', Obj [Str ''9223372036854775808'', Str ''-1''])]\<rparr>"
  by (simp add: normalize_def convert_columns_to_numeric_def columns_of_def setitem_def
      int_conversion_def scan_int_def int_literal_def decide_int64_def float64_of_int_small
      digit_of_def)

text \<open>
  Claim C5. Normalizing twice gives what normalizing once gives: on a table with unique
  labels the normalizer returns a table, and normalizing that table returns it unchanged.
\<close>

theorem normalize_idempotent:
  assumes "unique_labels T"
  shows "\<exists>T'. normalize conv T = Inr T' \<and> normalize conv T' = Inr T'"
proof -
  define T' where "T' = T\<lparr>cols := map (\<lambda>(l, c). (l, to_numeric_ignore conv c)) (cols T)\<rparr>"
  have n: "normalize conv T = Inr T'"
    unfolding T'_def by (rule normalize_spec [OF assms])
  have "map fst (cols T') = map fst (cols T)"
    unfolding T'_def by (induction "cols T") auto
  with assms have u: "unique_labels T'" by (simp add: unique_labels_def)
  have "T'\<lparr>cols := map (\<lambda>(l, c). (l, to_numeric_ignore conv c)) (cols T')\<rparr> = T'"
    unfolding T'_def by (simp add: split_beta to_numeric_ignore_idem)
  with normalize_spec [OF u, of conv] have "normalize conv T' = Inr T'" by simp
  with n show ?thesis by blast
qed

theorem normalize_idempotent_witness:
  "unique_labels text_example \<and>
   normalize int_conversion text_example = Inr normalized_example \<and>
   normalize int_conversion normalized_example = Inr normalized_example"
proof -
  have u: "unique_labels text_example"
    by (simp add: unique_labels_def text_example_def)
  have e: "normalize int_conversion text_example = Inr normalized_example"
    by (simp add: normalize_def convert_columns_to_numeric_def columns_of_def setitem_def
        int_conversion_def scan_int_def int_literal_def decide_int64_def float64_of_int_small
        digit_of_def text_example_def normalized_example_def)
  from normalize_idempotent [OF u, of int_conversion] e
  have "normalize int_conversion normalized_example = Inr normalized_example" by auto
  with u e show ?thesis by simp
qed

text \<open>
  Claim C9. \<^verbatim>\<open>convert_columns_to_numeric\<close> works in place. Called with a reference to a
  table with unique labels, it returns that same reference; afterwards the table at the
  reference is the normalized one, so the caller's table, and every alias of it, is
  normalized and the table as it was before the call is stored nowhere; no other table of
  the heap is touched.
\<close>

theorem convert_columns_to_numeric_in_place:
  assumes "unique_labels (h df)"
  shows "\<exists>h'. convert_columns_to_numeric conv df h = (Inr df, h') \<and>
           normalize conv (h df) = Inr (h' df) \<and>
           (\<forall>r. r \<noteq> df \<longrightarrow> h' r = h r)"
proof -
  define h' where
    "h' = h(df := (h df)\<lparr>cols := map (\<lambda>(l, c). (l, to_numeric_ignore conv c)) (cols (h df))\<rparr>)"
  have "convert_columns_to_numeric conv df h = (Inr df, h')"
    unfolding h'_def by (rule convert_columns_to_numeric_spec [where h = h and df = df, OF assms])
  moreover have "normalize conv (h df) = Inr (h' df)"
    using normalize_spec [OF assms, of conv] by (simp add: h'_def)
  moreover have "\<forall>r. r \<noteq> df \<longrightarrow> h' r = h r" by (simp add: h'_def)
  ultimately show ?thesis by blast
qed

theorem convert_columns_to_numeric_in_place_witness:
  "unique_labels ((\<lambda>r. if r = 1 then text_example else tie_example) 1) \<and>
   fst (convert_columns_to_numeric int_conversion 1
          (\<lambda>r. if r = 1 then text_example else tie_example))
     = Inr 1 \<and>
   snd (convert_columns_to_numeric int_conversion 1
          (\<lambda>r. if r = 1 then text_example else tie_example)) 1
     = normalized_example \<and>
   snd (convert_columns_to_numeric int_conversion 1
          (\<lambda>r. if r = 1 then text_example else tie_example)) 2
     = tie_example"
proof -
  define h :: "int heap" where "h = (\<lambda>r. if r = 1 then text_example else tie_example)"
  have u: "unique_labels (h 1)"
    by (simp add: h_def unique_labels_def text_example_def)
  from convert_columns_to_numeric_in_place
         [where h = h and df = 1 and conv = int_conversion, OF u]
  obtain h' where
    c: "convert_columns_to_numeric int_conversion 1 h = (Inr 1, h')"
    and n: "normalize int_conversion (h 1) = Inr (h' 1)"
    and o: "\<forall>r. r \<noteq> 1 \<longrightarrow> h' r = h r" by blast
  have "normalize int_conversion (h 1) = Inr normalized_example"
    by (simp add: h_def normalize_def convert_columns_to_numeric_def columns_of_def setitem_def
        int_conversion_def scan_int_def int_literal_def decide_int64_def float64_of_int_small
        digit_of_def text_example_def normalized_example_def)
  with n have "h' 1 = normalized_example" by simp
  moreover from o have "h' 2 = tie_example" by (simp add: h_def)
  ultimately show ?thesis using u c unfolding h_def by simp
qed

section \<open>Properties of the run\<close>

lemma scrape_pages_Inr_iff:
  "(\<exists>d. scrape_pages conv driver ps dfs = Inr d) \<longleftrightarrow>
   (\<forall>p\<in>set ps. \<exists>df. scrape_table driver (url p) (table_id p) = Inr df \<and>
                    (\<exists>df'. normalize conv df = Inr df'))"
proof (induction ps arbitrary: dfs)
  case Nil
  then show ?case by simp
next
  case (Cons p ps)
  show ?case
  proof (cases "scrape_table driver (url p) (table_id p) :: py_error + 'a frame")
    case (Inl e)
    then show ?thesis by simp
  next
    case (Inr df)
    note s = this
    show ?thesis
    proof (cases "normalize conv df")
      case (Inl e)
      with s show ?thesis by simp
    next
      case (Inr df')
      have "scrape_pages conv driver (p # ps) dfs
              = scrape_pages conv driver ps (dfs(table_id p \<mapsto> df'))"
        using s Inr by simp
      then have "(\<exists>d. scrape_pages conv driver (p # ps) dfs = Inr d) \<longleftrightarrow>
          (\<exists>d. scrape_pages conv driver ps (dfs(table_id p \<mapsto> df')) = Inr d)"
        by (simp only:)
      also have "\<dots> \<longleftrightarrow>
          (\<forall>p\<in>set ps. \<exists>df. scrape_table driver (url p) (table_id p) = Inr df \<and>
                    (\<exists>df'. normalize conv df = Inr df'))"
        by (rule Cons)
      finally show ?thesis using s Inr by simp
    qed
  qed
qed

text \<open>
  Claim C8, as the code has it. \<^verbatim>\<open>driver.quit()\<close> is executed exactly on the runs in which
  all six pages are scraped and normalized without an exception. When scraping or
  normalizing a page raises, the process ends before line 157 and the session is not
  released.
\<close>

theorem driver_quit_iff:
  "driver_quit (scrape_all conv driver) \<longleftrightarrow>
   (\<forall>p\<in>set pages. \<exists>df. scrape_table driver (url p) (table_id p) = Inr df \<and>
                       (\<exists>df'. normalize conv df = Inr df'))"
proof -
  have "driver_quit (scrape_all conv driver) \<longleftrightarrow>
        (\<exists>d. scrape_pages conv driver pages Map.empty = Inr d)"
    by (cases "scrape_pages conv driver pages Map.empty") (simp_all add: scrape_all_def)
  then show ?thesis by (simp only: scrape_pages_Inr_iff)
qed

theorem driver_quit_iff_witness:
  "driver_quit (scrape_all int_conversion (\<lambda>a. Inr all_tables_example))"
proof -
  have s: "scrape_table (\<lambda>a. Inr all_tables_example) (url p) (table_id p)
             = Inr (\<lparr>index = [], cols = []\<rparr> :: int frame)"
    if "p \<in> set pages" for p
    using that
    by (auto simp: pages_def all_tables_example_def scrape_table_def scrape_table_from_def
        find_def find_all_def DataFrame_def dropna_def take_rows_def select_def)
  have n: "normalize int_conversion \<lparr>index = [], cols = []\<rparr> = Inr \<lparr>index = [], cols = []\<rparr>"
    by (simp add: normalize_def convert_columns_to_numeric_def)
  have "\<forall>p\<in>set pages. \<exists>df. scrape_table (\<lambda>a. Inr all_tables_example) (url p) (table_id p)
            = Inr (df :: int frame) \<and> (\<exists>df'. normalize int_conversion df = Inr df')"
    using s n by blast
  then show ?thesis by (simp only: driver_quit_iff)
qed

text \<open>
  Claim C8, as the spec states it, has the session released on the error path too. On a
  run whose first page has no table, \<^verbatim>\<open>scrape_table\<close> raises and \<^verbatim>\<open>driver.quit()\<close> is never
  executed.
\<close>

theorem driver_not_quit_on_error:
  "\<not> driver_quit (scrape_all int_conversion (\<lambda>a. Inr no_table_example)) \<and>
   loop_result (scrape_all int_conversion (\<lambda>a. Inr no_table_example)) = Inl AttributeError"
  by (simp add: scrape_all_def pages_def scrape_table_def scrape_table_from_def
      no_table_example_def find_def find_all_def)

section \<open>Properties of the record finder on every table\<close>

lemma select_all_False: "list_all (\<lambda>b. \<not> b) m \<Longrightarrow> select m xs = []"
proof (induction m arbitrary: xs)
  case Nil
  then show ?case by simp
next
  case (Cons b m)
  then show ?case by (cases xs) simp_all
qed

lemma getitem_take_rows:
  "getitem (take_rows m df) l =
     (case getitem df l of Inl e \<Rightarrow> Inl e | Inr c \<Rightarrow> Inr (take_col m c))"
proof -
  have "map_of (map (\<lambda>(l, c). (l, take_col m c)) (cols df)) l
          = map_option (take_col m) (map_of (cols df) l)"
    by (induction "cols df" arbitrary: df) (auto simp: map_of_map)
  then show ?thesis
    by (simp add: getitem_def take_rows_def split: option.splits)
qed

lemma eq_scalar_none:
  assumes "\<forall>ns. pc = Numeric ns \<longrightarrow> Val v \<notin> set ns"
  shows "list_all (\<lambda>b. \<not> b) (eq_scalar pc (Val v))"
proof (cases pc)
  case (Obj cs)
  then show ?thesis by (simp add: list_all_iff)
next
  case (Numeric ns)
  with assms have "Val v \<notin> set ns" by simp
  then have "\<forall>n\<in>set ns. \<not> (case n of NaN \<Rightarrow> False | Val a \<Rightarrow> a = v)"
    by (auto split: number.splits)
  with Numeric show ?thesis by (simp add: list_all_iff)
qed

lemma take_col_all_False:
  "list_all (\<lambda>b. \<not> b) m \<Longrightarrow> take_col m c = (case c of Obj cs \<Rightarrow> Obj [] | Numeric ns \<Rightarrow> Numeric [])"
  by (cases c) (simp_all add: select_all_False)

lemma highest_where_empty:
  assumes "getitem df p = Inr pc" and "list_all (\<lambda>b. \<not> b) (eq_scalar pc (Val v))"
  shows "highest_where df p v r =
           (case getitem df r of
              Inl e \<Rightarrow> Inl e
            | Inr (Obj cs) \<Rightarrow> Inl TypeError
            | Inr (Numeric ns) \<Rightarrow> Inl IndexError)"
proof (cases "getitem df r")
  case (Inl e)
  with assms(1) show ?thesis
    by (simp add: highest_where_def nlargest1_def getitem_take_rows)
next
  case (Inr rc)
  show ?thesis
  proof (cases rc)
    case (Obj cs)
    with Inr assms show ?thesis
      by (simp add: highest_where_def nlargest1_def getitem_take_rows take_col_all_False)
  next
    case (Numeric ns)
    with Inr assms show ?thesis
      by (simp add: highest_where_def nlargest1_def getitem_take_rows take_col_all_False
          select_all_False)
  qed
qed

text \<open>
  Claim C2. When no row of the table has the value \<open>v\<close> in the predicate column, the record
  finder returns no value: the result is an exception. (The comparison is with a number, so
  a row of a textual predicate column never satisfies it.) When the table has both columns
  and the rank column is numeric, as every query of the script needs, the exception is the
  \<^verbatim>\<open>IndexError\<close> of \<^verbatim>\<open>.values[0]\<close> on the empty selection, which is what the spec calls
  \<^verbatim>\<open>EmptyResultError\<close>. (Without the predicate or rank column the lookup raises \<^verbatim>\<open>KeyError\<close>
  first, and \<^verbatim>\<open>nlargest\<close> refuses a textual rank column with \<^verbatim>\<open>TypeError\<close>.)
\<close>

theorem find_top_empty:
  assumes "unique_labels df"
    and "\<forall>ns. map_of (cols df) p = Some (Numeric ns) \<longrightarrow> Val v \<notin> set ns"
  shows "(\<exists>e. find_top df p v r = Inl e) \<and>
         ((\<exists>pc ns. map_of (cols df) p = Some pc \<and> map_of (cols df) r = Some (Numeric ns)) \<longrightarrow>
            find_top df p v r = Inl IndexError)"
proof (cases "map_of (cols df) p")
  case None
  then have "find_top df p v r = Inl KeyError"
    by (simp add: find_top_def highest_where_def getitem_def)
  with None show ?thesis by simp
next
  case (Some pc)
  then have g: "getitem df p = Inr pc" by (simp add: getitem_def)
  from assms(2) Some have "\<forall>ns. pc = Numeric ns \<longrightarrow> Val v \<notin> set ns" by simp
  then have m: "list_all (\<lambda>b. \<not> b) (eq_scalar pc (Val v))" by (rule eq_scalar_none)
  note h = highest_where_empty [OF g m, of r]
  have 1: "\<exists>e. find_top df p v r = Inl e"
    using h by (auto simp: find_top_def split: sum.splits column.splits)
  have 2: "find_top df p v r = Inl IndexError" if "map_of (cols df) r = Some (Numeric ns)" for ns
    using h that by (simp add: find_top_def getitem_def)
  from 1 2 show ?thesis by blast
qed

theorem find_top_empty_witness:
  "unique_labels tie_example \<and>
   map_of (cols tie_example) ''goals'' = Some (Numeric [Val 0, Val 0, Val 1]) \<and>
   Val 7 \<notin> set [Val 0, Val 0, Val (1 :: int)] \<and>
   map_of (cols tie_example) ''shots'' = Some (Numeric [Val 5, Val 5, Val 9]) \<and>
   find_top tie_example ''goals'' 7 ''shots'' = Inl IndexError"
proof -
  have u: "unique_labels tie_example"
    by (simp add: unique_labels_def tie_example_def)
  have p: "map_of (cols tie_example) ''goals'' = Some (Numeric [Val 0, Val 0, Val 1])"
    by (simp add: tie_example_def)
  have r: "map_of (cols tie_example) ''shots'' = Some (Numeric [Val 5, Val 5, Val 9])"
    by (simp add: tie_example_def)
  have n: "\<forall>ns. map_of (cols tie_example) ''goals'' = Some (Numeric ns) \<longrightarrow> Val 7 \<notin> set ns"
    by (simp add: p)
  from find_top_empty [OF u n, of "''shots''"] p r
  have "find_top tie_example ''goals'' 7 ''shots'' = Inl IndexError" by blast
  with u p r show ?thesis by simp
qed

lemma select_nth:
  "length m = length xs \<Longrightarrow> select m xs = map (\<lambda>i. xs ! i) (filter (\<lambda>i. m ! i) [0 ..< length xs])"
proof (induction m arbitrary: xs)
  case Nil
  then show ?case by simp
next
  case (Cons b m)
  then obtain y ys where xs: "xs = y # ys" by (cases xs) auto
  with Cons.prems have l: "length m = length ys" by simp
  have shift: "map (\<lambda>i. (y # ys) ! i) (filter (\<lambda>i. (c # m) ! i) (map Suc [0 ..< length ys]))
               = map (\<lambda>i. ys ! i) (filter (\<lambda>i. m ! i) [0 ..< length ys])" for c
    by (simp add: filter_map comp_def)
  have upt: "[0 ..< length (y # ys)] = 0 # map Suc [0 ..< length ys]"
    by (simp add: upt_conv_Cons map_Suc_upt del: upt_Suc)
  show ?case
    unfolding xs upt using Cons.IH [OF l] shift by simp
qed

lemma apply_cells_Inr:
  "apply_cells xs = Inr ts \<Longrightarrow>
   length ts = length xs \<and>
   (\<forall>k<length xs. \<exists>s. xs ! k = Str s \<and> extract_surname s = Inr (ts ! k))"
proof (induction xs arbitrary: ts rule: apply_cells.induct)
  case 1
  then show ?case by simp
next
  case (2 cs)
  then show ?case by simp
next
  case (3 s cs)
  from "3.prems" obtain t ts' where t: "extract_surname s = Inr t"
    and r: "apply_cells cs = Inr ts'" and ts: "ts = t # ts'"
    by (auto split: sum.splits)
  from "3.IH" [OF t r] have ih: "length ts' = length cs"
    "\<forall>k<length cs. \<exists>s. cs ! k = Str s \<and> extract_surname s = Inr (ts' ! k)" by simp_all
  have "\<exists>s'. (Str s # cs) ! k = Str s' \<and> extract_surname s' = Inr (ts ! k)"
    if "k < length (Str s # cs)" for k
  proof (cases k)
    case 0
    with t ts show ?thesis by simp
  next
    case (Suc j)
    with that ih(2) ts show ?thesis by simp
  qed
  with ih(1) ts show ?case by simp
qed

lemma length_eq_scalar: "length (eq_scalar c x) = col_length c"
  by (cases c) simp_all

lemma eq_scalar_nth:
  "i < col_length c \<Longrightarrow> eq_scalar c x ! i \<longleftrightarrow> (x \<noteq> NaN \<and> num_at c i = Some x)"
  by (cases c) (auto split: number.splits)

lemma well_formed_col_length:
  "well_formed df \<Longrightarrow> map_of (cols df) l = Some c \<Longrightarrow> col_length c = length (index df)"
  by (auto simp: well_formed_def list_all_iff dest!: map_of_SomeD)

text \<open>
  Claim C7, as the code has it. When the record finder returns, the surnames it returns
  are those of the selected rows, one entry for each selected row and in table order:
  entry \<open>k\<close> is \<^verbatim>\<open>extract_surname\<close> of the player name in the \<open>k\<close>-th row whose predicate column
  holds \<open>v\<close> and whose rank column holds the returned maximum. Nothing removes a repeated
  surname.
\<close>

theorem find_top_surname_per_row:
  assumes "unique_labels df" and "well_formed df"
    and "find_top df p v r = Inr (m, players)"
  shows "\<exists>pc rc names.
           map_of (cols df) p = Some pc \<and> map_of (cols df) r = Some rc \<and>
           map_of (cols df) ''player'' = Some names \<and>
           length players = length (selected_rows df pc v rc m) \<and>
           (\<forall>k<length players. \<exists>s.
              str_at names (selected_rows df pc v rc m ! k) = Some s \<and>
              extract_surname s = Inr (players ! k))"
proof -
  from assms(3) have pw: "players_where df p v r m = Inr players"
    by (auto simp: find_top_def split: sum.splits)
  then obtain pc where pc: "map_of (cols df) p = Some pc"
    by (auto simp: players_where_def getitem_def split: option.splits)
  from pw pc obtain rc where rc: "map_of (cols df) r = Some rc"
    by (auto simp: players_where_def getitem_def split: option.splits)
  define msk where "msk = map2 (\<and>) (eq_scalar pc (Val v)) (eq_scalar rc m)"
  from pw pc rc obtain names where names: "map_of (cols df) ''player'' = Some names"
    and ap: "apply_extract_surname (take_col msk names) = Inr players"
    by (auto simp: players_where_def getitem_def [of df] getitem_take_rows msk_def
        split: option.splits)
  define n where "n = length (index df)"
  have lens: "col_length pc = n" "col_length rc = n" "col_length names = n"
    using assms(2) pc rc names by (simp_all add: n_def well_formed_col_length)
  have lm: "length msk = n" by (simp add: msk_def length_eq_scalar lens)
  have mi: "msk ! i \<longleftrightarrow> (num_at pc i = Some (Val v) \<and> m \<noteq> NaN \<and> num_at rc i = Some m)"
    if "i < n" for i
    using that by (simp add: msk_def length_eq_scalar lens eq_scalar_nth)
  have sel: "filter (\<lambda>i. msk ! i) [0 ..< n] = selected_rows df pc v rc m"
    unfolding selected_rows_def n_def [symmetric]
    by (rule filter_cong [OF refl]) (simp add: mi)
  have main: "length players = length (selected_rows df pc v rc m) \<and>
        (\<forall>k<length players. \<exists>s.
            str_at names (selected_rows df pc v rc m ! k) = Some s \<and>
            extract_surname s = Inr (players ! k))"
  proof (cases names)
    case (Obj cs)
    with lens have lc: "length msk = length cs" by (simp add: lm)
    have s: "select msk cs = map (\<lambda>i. cs ! i) (selected_rows df pc v rc m)"
      using select_nth [OF lc] sel lc lm by simp
    from ap Obj have "apply_cells (select msk cs) = Inr players" by simp
    from apply_cells_Inr [OF this] s
    have l: "length players = length (selected_rows df pc v rc m)"
      and e: "\<forall>k<length (selected_rows df pc v rc m).
               \<exists>s. cs ! (selected_rows df pc v rc m ! k) = Str s \<and>
                   extract_surname s = Inr (players ! k)"
      by simp_all
    have "\<exists>s. str_at names (selected_rows df pc v rc m ! k) = Some s \<and>
              extract_surname s = Inr (players ! k)"
      if "k < length players" for k
    proof -
      from that l e obtain s where "cs ! (selected_rows df pc v rc m ! k) = Str s"
        and "extract_surname s = Inr (players ! k)" by auto
      then show ?thesis using Obj by simp
    qed
    with l show ?thesis by simp
  next
    case (Numeric ns)
    with lens have lc: "length msk = length ns" by (simp add: lm)
    have s: "select msk ns = map (\<lambda>i. ns ! i) (selected_rows df pc v rc m)"
      using select_nth [OF lc] sel lc lm by simp
    from ap Numeric have "select msk ns = [] \<and> players = []"
      by (cases "select msk ns") simp_all
    with s show ?thesis by simp
  qed
  with pc rc names show ?thesis by blast
qed

theorem find_top_surname_per_row_witness:
  "unique_labels same_surname_example \<and> well_formed same_surname_example \<and>
   find_top same_surname_example ''goals'' 0 ''shots'' = Inr (Val 5, [''White'', ''White'']) \<and>
   length (selected_rows same_surname_example (Numeric [Val 0, Val 0, Val 0]) 0
             (Numeric [Val 5, Val 3, Val 5]) (Val 5)) = length [''White'', ''White'']"
proof -
  have u: "unique_labels same_surname_example"
    by (simp add: unique_labels_def same_surname_example_def)
  have w: "well_formed same_surname_example"
    by (simp add: well_formed_def same_surname_example_def)
  have f: "find_top same_surname_example ''goals'' 0 ''shots''
             = Inr (Val 5, [''White'', ''White''])"
    by (simp add: same_surname_example_def find_top_def highest_where_def players_where_def
        getitem_def nlargest1_def take_rows_def select_def nlargest_pos_def extract_surname_def
        split_py.simps is_space_def)
  from find_top_surname_per_row [OF u w f] obtain pc rc where
    "map_of (cols same_surname_example) ''goals'' = Some pc"
    "map_of (cols same_surname_example) ''shots'' = Some rc"
    "length [''White'', ''White''] = length (selected_rows same_surname_example pc 0 rc (Val 5))"
    by blast
  then have "length (selected_rows same_surname_example (Numeric [Val 0, Val 0, Val 0]) 0
             (Numeric [Val 5, Val 3, Val 5]) (Val 5)) = length [''White'', ''White'']"
    by (simp add: same_surname_example_def)
  with u w f show ?thesis by simp
qed

text \<open>
  Claim C7, as the spec states it, has every surname at most once. With two tied players
  named White the returned collection holds the surname twice.
\<close>

theorem find_top_keeps_duplicates:
  "find_top same_surname_example ''goals'' 0 ''shots'' = Inr (Val 5, [''White'', ''White'']) \<and>
   \<not> distinct [''White'', ''White'']"
  by (simp add: same_surname_example_def find_top_def highest_where_def players_where_def
      getitem_def nlargest1_def take_rows_def select_def nlargest_pos_def extract_surname_def
      split_py.simps is_space_def)

end
